theory Spec2Isabelle
  imports Complex_Main
begin

section \<open>Strings and characters\<close>

text \<open>
  A Python \<open>str\<close> is modelled as a \<^typ>\<open>string\<close>, each \<^typ>\<open>char\<close> standing for the
  code point of the same number (U+0000 to U+00FF).  Inside this range the decimal
  digits of Unicode (category Nd, what \<open>\d\<close> matches and \<open>float\<close> reads) are exactly
  \<open>0\<close> to \<open>9\<close>.
\<close>

definition digit_value :: "char \<Rightarrow> nat option" where
  "digit_value = map_of
     [(CHR ''0'', 0), (CHR ''1'', 1), (CHR ''2'', 2), (CHR ''3'', 3), (CHR ''4'', 4),
      (CHR ''5'', 5), (CHR ''6'', 6), (CHR ''7'', 7), (CHR ''8'', 8), (CHR ''9'', 9)]"

definition is_digit :: "char \<Rightarrow> bool" where
  "is_digit c = (digit_value c \<noteq> None)"

text \<open>\<open>str.isspace\<close> on U+0000 to U+00FF.\<close>

definition is_space :: "char \<Rightarrow> bool" where
  "is_space c = (c \<in> set [CHR 0x09, CHR 0x0A, CHR 0x0B, CHR 0x0C, CHR 0x0D,
                           CHR 0x1C, CHR 0x1D, CHR 0x1E, CHR 0x1F, CHR 0x20,
                           CHR 0x85, CHR 0xA0])"

text \<open>\<open>s.strip()\<close>\<close>

definition strip :: "string \<Rightarrow> string" where
  "strip s = rev (dropWhile is_space (rev (dropWhile is_space s)))"

text \<open>\<open>s.replace(",", "")\<close>\<close>

definition remove_commas :: "string \<Rightarrow> string" where
  "remove_commas s = filter (\<lambda>c. c \<noteq> CHR '','') s"


section \<open>Regular expressions\<close>

text \<open>
  The fragment of Python's \<open>re\<close> the parser uses: a character class with a greedy
  quantifier \<open>{m,n}\<close> (\<open>None\<close> for no upper bound), sequence, the greedy option \<open>?\<close>,
  and one capturing group.
\<close>

datatype rx =
    Cls "char \<Rightarrow> bool" nat "nat option"
  | Seq rx rx
  | Opt rx
  | Grp rx

text \<open>
  \<open>rmatch r s\<close> lists every way \<open>r\<close> matches at the start of \<open>s\<close>, in the order the
  backtracking matcher tries them (a greedy quantifier takes the longest run first): each
  entry is the text captured by the group, if any, and the rest of \<open>s\<close> after the match.
\<close>

fun rmatch :: "rx \<Rightarrow> string \<Rightarrow> (string option \<times> string) list" where
  "rmatch (Cls p m hi) s =
     (let run = length (takeWhile p s);
          top = (case hi of None \<Rightarrow> run | Some n \<Rightarrow> min n run)
      in map (\<lambda>k. (None, drop k s)) (rev [m ..< Suc top]))"
| "rmatch (Seq a b) s =
     concat (map (\<lambda>(g, r). map (\<lambda>(g', r'). (case g' of None \<Rightarrow> g | Some x \<Rightarrow> Some x, r'))
                               (rmatch b r))
                 (rmatch a s))"
| "rmatch (Opt a) s = rmatch a s @ [(None, s)]"
| "rmatch (Grp a) s = map (\<lambda>(g, r). (Some (take (length s - length r) s), r)) (rmatch a s)"

text \<open>
  \<open>re.search\<close>: the first match at the leftmost position that has one; the result is
  \<open>(group(), group(1))\<close>.
\<close>

fun re_search :: "rx \<Rightarrow> string \<Rightarrow> (string \<times> string option) option" where
  "re_search a [] =
     (case rmatch a [] of [] \<Rightarrow> None | (g, r) # _ \<Rightarrow> Some ([], g))"
| "re_search a (c # cs) =
     (case rmatch a (c # cs) of
        [] \<Rightarrow> re_search a cs
      | (g, r) # _ \<Rightarrow> Some (take (length (c # cs) - length r) (c # cs), g))"

text \<open>\<open>\d+(?:\.\d{1,2})?\<close>\<close>

definition number_rx :: rx where
  "number_rx = Seq (Cls is_digit 1 None)
                   (Opt (Seq (Cls (\<lambda>c. c = CHR ''.'') 1 (Some 1)) (Cls is_digit 1 (Some 2))))"

text \<open>\<open>\$(\d+(?:\.\d{1,2})?)\<close>\<close>

definition fixed_rx :: rx where
  "fixed_rx = Seq (Cls (\<lambda>c. c = CHR ''$'') 1 (Some 1)) (Grp number_rx)"

text \<open>\<open>(\d+(?:\.\d{1,2})?)%\<close>\<close>

definition percent_rx :: rx where
  "percent_rx = Seq (Grp number_rx) (Cls (\<lambda>c. c = CHR ''%'') 1 (Some 1))"

text \<open>\<open>[\d,.]+\<close>\<close>

definition price_rx :: rx where
  "price_rx = Cls (\<lambda>c. is_digit c \<or> c = CHR '','' \<or> c = CHR ''.'') 1 None"


section \<open>Floating-point numbers\<close>

datatype exn = TypeError | AttributeError | UnboundLocalError | ValueError

text \<open>
  A Python \<open>float\<close> that \<open>float(s)\<close> returns for a text of digits and periods: the
  text's value, or \<open>inf\<close> when the value is beyond the binary64 range.  A finite value is
  kept as the exact rational the text denotes; its rounding to the nearest binary64 is not
  modelled.
\<close>

datatype pyfloat = Finite rat | Infinity

text \<open>The least value that rounds (to nearest, ties to even) past the largest binary64.\<close>

definition overflow_threshold :: rat where
  "overflow_threshold = 2 ^ 1024 - 2 ^ 970"

definition to_float :: "rat \<Rightarrow> pyfloat" where
  "to_float q = (if overflow_threshold \<le> q then Infinity else Finite q)"

definition nat_of_digits :: "string \<Rightarrow> nat" where
  "nat_of_digits s = foldl (\<lambda>n c. 10 * n + (case digit_value c of None \<Rightarrow> 0 | Some d \<Rightarrow> d)) 0 s"

text \<open>
  \<open>float(s)\<close> for \<open>s\<close> made of digits and periods, which is all the parser passes to it:
  digits, optionally a period and more digits, with a digit on one side of the period at
  least; any other such text raises \<open>ValueError\<close>.
\<close>

definition py_float :: "string \<Rightarrow> exn + pyfloat" where
  "py_float s =
     (let ip = takeWhile is_digit s; rest = dropWhile is_digit s
      in case rest of
           [] \<Rightarrow> if ip = [] then Inl ValueError
                 else Inr (to_float (of_nat (nat_of_digits ip)))
         | c # fp \<Rightarrow>
             if c = CHR ''.'' \<and> list_all is_digit fp \<and> \<not> (ip = [] \<and> fp = [])
             then Inr (to_float (of_nat (nat_of_digits (ip @ fp)) / 10 ^ length fp))
             else Inl ValueError)"

text \<open>Truth value of a float: \<open>0.0\<close> is false.\<close>

definition float_truthy :: "pyfloat \<Rightarrow> bool" where
  "float_truthy x = (x \<noteq> Finite 0)"


section \<open>Coupon classification\<close>

text \<open>
  \<open>check_coupon_type\<close>: the fixed-amount pattern is searched first, then the percentage
  pattern.  \<open>float\<close> raises \<open>TypeError\<close> on \<open>None\<close> (a group that took no part in
  the match) and \<open>ValueError\<close> on a text that is no number; the model keeps both
  branches.
\<close>

definition check_coupon_type :: "string \<Rightarrow> exn + (string \<times> pyfloat) option" where
  "check_coupon_type text =
     (case re_search fixed_rx text of
        Some (_, group1) \<Rightarrow>
          (case group1 of
             None \<Rightarrow> Inl TypeError
           | Some g \<Rightarrow>
               (case py_float g of
                  Inl e \<Rightarrow> Inl e
                | Inr amount \<Rightarrow> Inr (Some (''fixed'', amount))))
      | None \<Rightarrow>
          (case re_search percent_rx text of
             Some (_, group1) \<Rightarrow>
               (case group1 of
                  None \<Rightarrow> Inl TypeError
                | Some g \<Rightarrow>
                    (case py_float g of
                       Inl e \<Rightarrow> Inl e
                     | Inr percent \<Rightarrow> Inr (Some (''percentage'', percent))))
           | None \<Rightarrow> Inr None))"


section \<open>Documents\<close>

text \<open>
  The tree BeautifulSoup builds: text nodes and tags.  A tag carries its name, the
  attributes the parser reads (\<open>id\<close>, the list of its classes, \<open>src\<close>) and its
  children.  The parse of the raw HTML text is the library's; the extraction methods work on
  the tree.
\<close>

datatype node =
    NavigableString string
  | Tag string "string option" "string list" "string option" "node list"

text \<open>All nodes below a node, in document order.\<close>

fun descendants :: "node \<Rightarrow> node list" where
  "descendants (NavigableString s) = []"
| "descendants (Tag nm i cls src kids) = concat (map (\<lambda>k. k # descendants k) kids)"

fun is_tag :: "node \<Rightarrow> bool" where
  "is_tag (NavigableString s) = False"
| "is_tag (Tag nm i cls src kids) = True"

fun tag_name :: "node \<Rightarrow> string option" where
  "tag_name (NavigableString s) = None"
| "tag_name (Tag nm i cls src kids) = Some nm"

fun attr_id :: "node \<Rightarrow> string option" where
  "attr_id (NavigableString s) = None"
| "attr_id (Tag nm i cls src kids) = i"

fun attr_class :: "node \<Rightarrow> string list" where
  "attr_class (NavigableString s) = []"
| "attr_class (Tag nm i cls src kids) = cls"

fun attr_src :: "node \<Rightarrow> string option" where
  "attr_src (NavigableString s) = None"
| "attr_src (Tag nm i cls src kids) = src"

text \<open>\<open>" ".join(classes)\<close>\<close>

fun join_spaces :: "string list \<Rightarrow> string" where
  "join_spaces [] = []"
| "join_spaces [c] = c"
| "join_spaces (c # d # cs) = c @ '' '' @ join_spaces (d # cs)"

text \<open>
  A \<open>class_\<close> filter given as a string matches a tag when one of the tag's classes is
  that string, or when the classes joined by spaces are.
\<close>

definition class_matches :: "string \<Rightarrow> node \<Rightarrow> bool" where
  "class_matches c n = (c \<in> set (attr_class n) \<or> (attr_class n \<noteq> [] \<and> join_spaces (attr_class n) = c))"

text \<open>\<open>node.find(...)\<close>: the first tag below \<open>node\<close> that passes the filter.\<close>

definition find_tag :: "(node \<Rightarrow> bool) \<Rightarrow> node \<Rightarrow> node option" where
  "find_tag p n = find (\<lambda>d. is_tag d \<and> p d) (descendants n)"

text \<open>\<open>find(id=i)\<close>, \<open>find(name, id=i)\<close>, \<open>find(name, class_=c)\<close>, \<open>find(name)\<close>\<close>

definition find_id :: "string \<Rightarrow> node \<Rightarrow> node option" where
  "find_id i = find_tag (\<lambda>d. attr_id d = Some i)"

definition find_name_id :: "string \<Rightarrow> string \<Rightarrow> node \<Rightarrow> node option" where
  "find_name_id nm i = find_tag (\<lambda>d. tag_name d = Some nm \<and> attr_id d = Some i)"

definition find_name_class :: "string \<Rightarrow> string \<Rightarrow> node \<Rightarrow> node option" where
  "find_name_class nm c = find_tag (\<lambda>d. tag_name d = Some nm \<and> class_matches c d)"

definition find_name :: "string \<Rightarrow> node \<Rightarrow> node option" where
  "find_name nm = find_tag (\<lambda>d. tag_name d = Some nm)"

text \<open>The strings below a node, in document order.\<close>

fun strings :: "node \<Rightarrow> string list" where
  "strings (NavigableString s) = [s]"
| "strings (Tag nm i cls src kids) = concat (map strings kids)"

text \<open>
  \<open>node.get_text(strip=True)\<close>: every string stripped, the empty ones dropped, the rest
  joined with no separator.
\<close>

definition get_text :: "node \<Rightarrow> string" where
  "get_text n = concat (filter (\<lambda>s. s \<noteq> []) (map strip (strings n)))"

text \<open>The document of the empty HTML text: the root object with nothing below it.\<close>

definition empty_soup :: node where
  "empty_soup = Tag ''[document]'' None [] None []"


section \<open>Logging\<close>

datatype level = INFO | WARNING | ERROR

type_synonym log_record = "level \<times> string"

text \<open>
  \<open>f"for {self.user_product_name}" or ""\<close>: the formatted text is never empty, so the
  \<open>or\<close> never takes its right side; a missing name prints as \<open>None\<close>.
\<close>

definition for_name :: "string option \<Rightarrow> string" where
  "for_name user_product_name =
     ''for '' @ (case user_product_name of None \<Rightarrow> ''None'' | Some n \<Rightarrow> n)"


section \<open>The page parser\<close>

text \<open>
  Each method takes \<open>self.user_product_name\<close> and \<open>self.soup\<close> and returns the records
  it logged, in order, with its outcome: \<open>Inl\<close> an exception raised, \<open>Inr\<close> the value
  returned (\<open>None\<close> for Python's \<open>None\<close>).
\<close>

definition parse_product_title ::
  "string option \<Rightarrow> node \<Rightarrow> log_record list \<times> (exn + string option)" where
  "parse_product_title user_product_name soup =
     (case find_id ''title_feature_div'' soup of
        Some title_tag \<Rightarrow> ([], Inr (Some (get_text title_tag)))
      | None \<Rightarrow>
          ([(WARNING, ''Product title not found '' @ for_name user_product_name)], Inr None))"

definition parse_product_price ::
  "string option \<Rightarrow> node \<Rightarrow> log_record list \<times> (exn + pyfloat option)" where
  "parse_product_price user_product_name soup =
     (case find_name_id ''div'' ''corePrice_feature_div'' soup of
        None \<Rightarrow>
          ([(WARNING, ''Product price not found '' @ for_name user_product_name)], Inr None)
      | Some price_element \<Rightarrow>
          (case find_name_class ''span'' ''a-offscreen'' price_element of
             None \<Rightarrow>
               ([(WARNING, ''Product price not found '' @ for_name user_product_name)],
                Inr None)
           | Some price_text_tag \<Rightarrow>
               (let price_text = get_text price_text_tag in
                case re_search price_rx price_text of
                  Some (group0, _) \<Rightarrow>
                    (let price_str = remove_commas group0 in
                     case py_float price_str of
                       Inr x \<Rightarrow> ([], Inr (Some x))
                     | Inl ValueError \<Rightarrow>
                         ([(ERROR, ''Failed to convert price to float ''
                                     @ for_name user_product_name)], Inr None)
                     | Inl e \<Rightarrow> ([], Inl e))
                | None \<Rightarrow>
                    ([(WARNING, ''Product price not found '' @ for_name user_product_name)],
                     Inr None))))"

record seller =
  ships_from :: "string option"
  sold_by :: "string option"

text \<open>\<open>element.find("span", class_=...).get_text(strip=True)\<close>: \<open>find\<close> may return
  \<open>None\<close>, which has no \<open>get_text\<close>.\<close>

definition feature_text :: "node \<Rightarrow> exn + string" where
  "feature_text element =
     (case find_name_class ''span'' ''a-size-small offer-display-feature-text-message'' element of
        None \<Rightarrow> Inl AttributeError
      | Some span_tag \<Rightarrow> Inr (get_text span_tag))"

text \<open>
  \<open>x if x else None\<close> on a local variable: a variable never assigned (\<open>None\<close> here) raises
  \<open>UnboundLocalError\<close>, an empty string gives \<open>None\<close>.
\<close>

definition value_or_none :: "string option \<Rightarrow> exn + string option" where
  "value_or_none local_var =
     (case local_var of
        None \<Rightarrow> Inl UnboundLocalError
      | Some v \<Rightarrow> Inr (if v \<noteq> [] then Some v else None))"

definition parse_product_seller ::
  "node \<Rightarrow> log_record list \<times> (exn + seller option)" where
  "parse_product_seller soup =
     (case find_id ''desktop_qualifiedBuyBox'' soup of
        None \<Rightarrow> ([(WARNING, ''Container element not found in the HTML content.'')], Inr None)
      | Some container_element \<Rightarrow>
     (case find_id ''offer-display-features'' container_element of
        None \<Rightarrow> ([(WARNING, ''Seller container not found in the HTML content.'')], Inr None)
      | Some seller_container \<Rightarrow>
     (let ships_from_element = find_id ''fulfillerInfoFeature_feature_div'' seller_container;
          sold_by_element = find_id ''merchantInfoFeature_feature_div'' seller_container;
          log1 = (if ships_from_element = None
                  then [(WARNING, ''Ships from element not found in the HTML content.'')]
                  else [])
      in
      case (case ships_from_element of
              None \<Rightarrow> Inr None
            | Some e \<Rightarrow> map_sum id Some (feature_text e)) of
        Inl e \<Rightarrow> (log1, Inl e)
      | Inr ships_from_data \<Rightarrow>
     (let log2 = log1 @ (if sold_by_element = None
                         then [(WARNING, ''Sold by element not found in the HTML content.'')]
                         else [])
      in
      case (case sold_by_element of
              None \<Rightarrow> Inr None
            | Some e \<Rightarrow> map_sum id Some (feature_text e)) of
        Inl e \<Rightarrow> (log2, Inl e)
      | Inr sold_by_data \<Rightarrow>
          if ships_from_element = None \<and> sold_by_element = None
          then (log2 @ [(WARNING,
                   ''Neither ships from nor sold by elements found in the HTML content.'')],
                Inr None)
          else
            (case value_or_none ships_from_data of
               Inl e \<Rightarrow> (log2, Inl e)
             | Inr sf \<Rightarrow>
                 (case value_or_none sold_by_data of
                    Inl e \<Rightarrow> (log2, Inl e)
                  | Inr sb \<Rightarrow> (log2, Inr (Some \<lparr>ships_from = sf, sold_by = sb\<rparr>))))))))"

definition parse_product_image ::
  "string option \<Rightarrow> node \<Rightarrow> log_record list \<times> (exn + string option)" where
  "parse_product_image user_product_name soup =
     (case find_id ''imgTagWrapperId'' soup of
        None \<Rightarrow>
          ([(WARNING, ''Product image container not found '' @ for_name user_product_name)],
           Inr None)
      | Some image_container \<Rightarrow>
          (case find_name ''img'' image_container of
             None \<Rightarrow>
               ([(WARNING, ''Product image tag not found '' @ for_name user_product_name)],
                Inr None)
           | Some img_tag \<Rightarrow>
               (case attr_src img_tag of
                  None \<Rightarrow>
                    ([(WARNING, ''Product image tag not found ''
                                  @ for_name user_product_name)], Inr None)
                | Some src \<Rightarrow> ([], Inr (Some src)))))"

text \<open>
  \<open>type, discount = parsed_discount if parsed_discount else None\<close>: a two-element tuple
  unpacks (a non-empty tuple is always true); \<open>None\<close> does not, and raises \<open>TypeError\<close>.
\<close>

definition unpack_pair :: "('a \<times> 'b) option \<Rightarrow> exn + ('a \<times> 'b)" where
  "unpack_pair parsed = (case parsed of None \<Rightarrow> Inl TypeError | Some p \<Rightarrow> Inr p)"

record coupon =
  coupon_type :: string
  coupon_amount :: pyfloat

definition parse_product_coupon ::
  "string option \<Rightarrow> node \<Rightarrow> log_record list \<times> (exn + coupon option)" where
  "parse_product_coupon user_product_name soup =
     (case find_id ''promoPriceBlockMessage_feature_div'' soup of
        None \<Rightarrow> ([(INFO, ''No coupon found '' @ for_name user_product_name)], Inr None)
      | Some coupon_element \<Rightarrow>
          (let coupon_message =
                 (case find_name_class ''span'' ''a-color-success couponLabelText'' coupon_element of
                    None \<Rightarrow> get_text coupon_element
                  | Some coupon_message_element \<Rightarrow> get_text coupon_message_element)
           in
           case check_coupon_type coupon_message of
             Inl e \<Rightarrow> ([], Inl e)
           | Inr parsed_discount \<Rightarrow>
               (case unpack_pair parsed_discount of
                  Inl e \<Rightarrow> ([], Inl e)
                | Inr (type, discount) \<Rightarrow>
                    if type = [] \<and> \<not> float_truthy discount
                    then ([(WARNING, ''Unable to determine coupon type ''
                                       @ for_name user_product_name)], Inr None)
                    else ([], Inr (Some \<lparr>coupon_type = type, coupon_amount = discount\<rparr>)))))"


section \<open>Sample documents\<close>

text \<open>A page is the root object with the \<open>html\<close> and \<open>body\<close> tags the parser adds.\<close>

definition page :: "node list \<Rightarrow> node" where
  "page body = Tag ''[document]'' None [] None
                 [Tag ''html'' None [] None [Tag ''body'' None [] None body]]"

text \<open>\<open><div id="promoPriceBlockMessage_feature_div">msg</div>\<close>\<close>

definition coupon_page :: "string \<Rightarrow> node" where
  "coupon_page msg =
     page [Tag ''div'' (Some ''promoPriceBlockMessage_feature_div'') [] None
             [NavigableString msg]]"

text \<open>\<open><div id="corePrice_feature_div"><span class="a-offscreen">txt</span></div>\<close>\<close>

definition price_page :: "string \<Rightarrow> node" where
  "price_page txt =
     page [Tag ''div'' (Some ''corePrice_feature_div'') [] None
             [Tag ''span'' None [''a-offscreen''] None [NavigableString txt]]]"

text \<open>
  \<open><div id="desktop_qualifiedBuyBox"><div id="offer-display-features">...</div></div>\<close>
\<close>

definition seller_page :: "node list \<Rightarrow> node" where
  "seller_page features =
     page [Tag ''div'' (Some ''desktop_qualifiedBuyBox'') [] None
             [Tag ''div'' (Some ''offer-display-features'') [] None features]]"

text \<open>
  \<open><div id="i"><span class="a-size-small offer-display-feature-text-message">txt</span></div>\<close>
\<close>

definition feature :: "string \<Rightarrow> string \<Rightarrow> node" where
  "feature i txt =
     Tag ''div'' (Some i) [] None
       [Tag ''span'' None [''a-size-small'', ''offer-display-feature-text-message''] None
          [NavigableString txt]]"


section \<open>Predicates used in the properties\<close>

text \<open>
  The shape \<open>\d+(?:\.\d{1,2})?\<close> of a number text: a non-empty run of digits, then
  nothing, or a period and one or two digits.
\<close>

definition number_shape :: "string \<Rightarrow> bool" where
  "number_shape w =
     (let ds = takeWhile is_digit w; fs = dropWhile is_digit w
      in ds \<noteq> [] \<and>
         (case fs of
            [] \<Rightarrow> True
          | c # f \<Rightarrow> c = CHR ''.'' \<and> f \<noteq> [] \<and> length f \<le> 2 \<and> list_all is_digit f))"

text \<open>A float that is not negative; \<open>inf\<close> is not.\<close>

fun float_nonneg :: "pyfloat \<Rightarrow> bool" where
  "float_nonneg (Finite q) = (0 \<le> q)"
| "float_nonneg Infinity = True"

text \<open>The characters of the class \<open>[\d,.]\<close>.\<close>

definition price_char :: "char \<Rightarrow> bool" where
  "price_char c = (is_digit c \<or> c = CHR '','' \<or> c = CHR ''.'')"


text \<open>Comparisons of a float with \<open>0\<close> and with \<open>100\<close>.\<close>

fun float_pos :: "pyfloat \<Rightarrow> bool" where
  "float_pos (Finite q) = (0 < q)"
| "float_pos Infinity = True"

fun float_le_100 :: "pyfloat \<Rightarrow> bool" where
  "float_le_100 (Finite q) = (q \<le> 100)"
| "float_le_100 Infinity = False"

text \<open>
  The invariant the data model states for a coupon: a fixed amount above \<open>0\<close>, or a
  percentage above \<open>0\<close> and at most \<open>100\<close>.
\<close>

definition coupon_invariant :: "string \<times> pyfloat \<Rightarrow> bool" where
  "coupon_invariant c =
     ((fst c = ''fixed'' \<and> float_pos (snd c))
      \<or> (fst c = ''percentage'' \<and> float_pos (snd c) \<and> float_le_100 (snd c)))"


text \<open>A float other than \<open>inf\<close>.\<close>

definition float_finite :: "pyfloat \<Rightarrow> bool" where
  "float_finite x = (x \<noteq> Infinity)"


section \<open>Evaluation on concrete documents\<close>

lemmas doc_defs = page_def coupon_page_def price_page_def seller_page_def feature_def
  empty_soup_def
lemmas find_defs = find_id_def find_name_id_def find_name_class_def find_name_def
  find_tag_def class_matches_def
lemmas text_defs = get_text_def strip_def is_space_def for_name_def
lemmas rx_defs = fixed_rx_def percent_rx_def number_rx_def price_rx_def is_digit_def
  digit_value_def
lemmas float_defs = py_float_def to_float_def overflow_threshold_def nat_of_digits_def
  float_truthy_def

text \<open>
  Claim C9.  On the document of the empty HTML text the title, price, image and seller
  methods each return \<open>None\<close> without raising, and each logs exactly one record.
\<close>

theorem empty_input_fields_absent:
  "parse_product_title upn empty_soup =
     ([(WARNING, ''Product title not found '' @ for_name upn)], Inr None)
   \<and> parse_product_price upn empty_soup =
     ([(WARNING, ''Product price not found '' @ for_name upn)], Inr None)
   \<and> parse_product_image upn empty_soup =
     ([(WARNING, ''Product image container not found '' @ for_name upn)], Inr None)
   \<and> parse_product_seller empty_soup =
     ([(WARNING, ''Container element not found in the HTML content.'')], Inr None)"
  by (simp add: parse_product_title_def parse_product_price_def parse_product_image_def
        parse_product_seller_def empty_soup_def find_defs)

text \<open>
  Claim C1.  On a coupon container whose message matches neither pattern
  (\<open>Limited time offer\<close>), \<open>check_coupon_type\<close> returns \<open>None\<close> and
  \<open>parse_product_coupon\<close> then raises \<open>TypeError\<close> at the tuple unpacking, before the
  warning it was about to log: nothing is returned and nothing is recorded.
\<close>

theorem coupon_unclassified_raises:
  "check_coupon_type ''Limited time offer'' = Inr None
   \<and> parse_product_coupon upn (coupon_page ''Limited time offer'') = ([], Inl TypeError)"
  by (simp add: parse_product_coupon_def check_coupon_type_def unpack_pair_def
        doc_defs find_defs text_defs rx_defs)

text \<open>
  Claim C2, as stated, fails: with the buy box and the offer features present and only one
  of the ships-from and sold-by nodes present, \<open>parse_product_seller\<close> logs a warning for
  the missing node, and returns no seller (it raises \<open>UnboundLocalError\<close> when it builds
  the result).
\<close>

theorem seller_half_present_raises:
  "parse_product_seller
     (seller_page [feature ''fulfillerInfoFeature_feature_div'' ''Amazon.com'']) =
     ([(WARNING, ''Sold by element not found in the HTML content.'')], Inl UnboundLocalError)
   \<and> parse_product_seller
     (seller_page [feature ''merchantInfoFeature_feature_div'' ''Amazon.com'']) =
     ([(WARNING, ''Ships from element not found in the HTML content.'')],
      Inl UnboundLocalError)"
  by (simp add: parse_product_seller_def feature_text_def value_or_none_def
        doc_defs find_defs text_defs)

text \<open>
  Claim C2, amended.  With the buy box and the offer features present, exactly one of the
  ships-from and sold-by nodes present, and that node holding its text \<open>span\<close>,
  \<open>parse_product_seller\<close> logs exactly one record, the warning for the missing node.
\<close>

theorem seller_half_present_logs_warning:
  "(find_id ''desktop_qualifiedBuyBox'' soup = Some container_element
    \<and> find_id ''offer-display-features'' container_element = Some seller_container
    \<and> find_id ''fulfillerInfoFeature_feature_div'' seller_container = Some ships_from_element
    \<and> find_id ''merchantInfoFeature_feature_div'' seller_container = None
    \<and> feature_text ships_from_element = Inr t
    \<longrightarrow> fst (parse_product_seller soup)
          = [(WARNING, ''Sold by element not found in the HTML content.'')])
   \<and> (find_id ''desktop_qualifiedBuyBox'' soup = Some container_element
    \<and> find_id ''offer-display-features'' container_element = Some seller_container
    \<and> find_id ''fulfillerInfoFeature_feature_div'' seller_container = None
    \<and> find_id ''merchantInfoFeature_feature_div'' seller_container = Some sold_by_element
    \<and> feature_text sold_by_element = Inr t
    \<longrightarrow> fst (parse_product_seller soup)
          = [(WARNING, ''Ships from element not found in the HTML content.'')])"
  by (simp add: parse_product_seller_def value_or_none_def Let_def)

text \<open>The amended property at a page with a ships-from node only, and one with a sold-by
  node only.\<close>

theorem seller_half_present_logs_warning_witness:
  "fst (parse_product_seller
          (seller_page [feature ''fulfillerInfoFeature_feature_div'' ''Acme Ltd'']))
     = [(WARNING, ''Sold by element not found in the HTML content.'')]
   \<and> fst (parse_product_seller
          (seller_page [feature ''merchantInfoFeature_feature_div'' ''Acme Ltd'']))
     = [(WARNING, ''Ships from element not found in the HTML content.'')]"
proof -
  let ?f = "feature ''fulfillerInfoFeature_feature_div'' ''Acme Ltd''"
  let ?m = "feature ''merchantInfoFeature_feature_div'' ''Acme Ltd''"
  have a: "find_id ''desktop_qualifiedBuyBox'' (seller_page [?f])
             = Some (Tag ''div'' (Some ''desktop_qualifiedBuyBox'') [] None
                       [Tag ''div'' (Some ''offer-display-features'') [] None [?f]])
    \<and> find_id ''offer-display-features''
          (Tag ''div'' (Some ''desktop_qualifiedBuyBox'') [] None
                       [Tag ''div'' (Some ''offer-display-features'') [] None [?f]])
             = Some (Tag ''div'' (Some ''offer-display-features'') [] None [?f])
    \<and> find_id ''fulfillerInfoFeature_feature_div''
          (Tag ''div'' (Some ''offer-display-features'') [] None [?f]) = Some ?f
    \<and> find_id ''merchantInfoFeature_feature_div''
          (Tag ''div'' (Some ''offer-display-features'') [] None [?f]) = None
    \<and> feature_text ?f = Inr ''Acme Ltd''"
    by (simp add: feature_text_def doc_defs find_defs text_defs)
  have b: "find_id ''desktop_qualifiedBuyBox'' (seller_page [?m])
             = Some (Tag ''div'' (Some ''desktop_qualifiedBuyBox'') [] None
                       [Tag ''div'' (Some ''offer-display-features'') [] None [?m]])
    \<and> find_id ''offer-display-features''
          (Tag ''div'' (Some ''desktop_qualifiedBuyBox'') [] None
                       [Tag ''div'' (Some ''offer-display-features'') [] None [?m]])
             = Some (Tag ''div'' (Some ''offer-display-features'') [] None [?m])
    \<and> find_id ''fulfillerInfoFeature_feature_div''
          (Tag ''div'' (Some ''offer-display-features'') [] None [?m]) = None
    \<and> find_id ''merchantInfoFeature_feature_div''
          (Tag ''div'' (Some ''offer-display-features'') [] None [?m]) = Some ?m
    \<and> feature_text ?m = Inr ''Acme Ltd''"
    by (simp add: feature_text_def doc_defs find_defs text_defs)
  from seller_half_present_logs_warning[THEN conjunct1, THEN mp, OF a]
       seller_half_present_logs_warning[THEN conjunct2, THEN mp, OF b]
  show ?thesis by blast
qed

text \<open>
  Claim C3.  A document built from a string can make a method raise.  A ships-from node that
  holds its text directly, with no \<open>span\<close> of the expected class, makes
  \<open>parse_product_seller\<close> raise \<open>AttributeError\<close>; a page with a sold-by node only makes
  it raise \<open>UnboundLocalError\<close>, while \<open>parse_product_title\<close> on the same page returns
  \<open>None\<close> with a warning, as every method is meant to.
\<close>

theorem seller_markup_raises:
  "parse_product_seller
     (seller_page
        [Tag ''div'' (Some ''fulfillerInfoFeature_feature_div'') [] None
           [NavigableString ''Amazon.com'']]) =
     ([], Inl AttributeError)
   \<and> snd (parse_product_seller
          (seller_page [feature ''merchantInfoFeature_feature_div'' ''Acme Ltd'']))
     = Inl UnboundLocalError
   \<and> parse_product_title None
        (seller_page [feature ''merchantInfoFeature_feature_div'' ''Acme Ltd''])
     = ([(WARNING, ''Product title not found for None'')], Inr None)"
  by (simp add: parse_product_seller_def parse_product_title_def feature_text_def
        value_or_none_def doc_defs find_defs text_defs)

section \<open>The regular-expression matcher\<close>

lemma take_takeWhile_all:
  "k \<le> length (takeWhile p s) \<Longrightarrow> list_all p (take k s)"
proof -
  assume k: "k \<le> length (takeWhile p s)"
  have "take k s = take k (takeWhile p s)"
    using k by (metis takeWhile_eq_take min.absorb1 take_take)
  moreover have "list_all p (takeWhile p s)"
    by (simp add: list_all_iff) (meson set_takeWhileD)
  ultimately show ?thesis
    by (metis list_all_iff in_set_takeD)
qed

lemma in_rmatch_Cls:
  "(g, r) \<in> set (rmatch (Cls p m hi) s) \<longleftrightarrow>
     g = None \<and> (\<exists>k. r = drop k s \<and> m \<le> k \<and> k \<le> length (takeWhile p s)
                    \<and> (case hi of None \<Rightarrow> True | Some n \<Rightarrow> k \<le> n))"
  by (cases hi) (auto simp: Let_def image_iff)

lemma in_rmatch_Seq:
  "(g, r) \<in> set (rmatch (Seq a b) s) \<longleftrightarrow>
     (\<exists>g1 r1 g2. (g1, r1) \<in> set (rmatch a s) \<and> (g2, r) \<in> set (rmatch b r1)
                 \<and> g = (case g2 of None \<Rightarrow> g1 | Some x \<Rightarrow> Some x))"
  by (auto simp: image_iff) force+

lemma in_rmatch_Opt:
  "(g, r) \<in> set (rmatch (Opt a) s) \<longleftrightarrow> (g, r) \<in> set (rmatch a s) \<or> (g = None \<and> r = s)"
  by auto

lemma in_rmatch_Grp:
  "(g, r) \<in> set (rmatch (Grp a) s) \<longleftrightarrow>
     (\<exists>g1. (g1, r) \<in> set (rmatch a s) \<and> g = Some (take (length s - length r) s))"
  by (auto simp: image_iff) force

lemma rmatch_suffix: "(g, r) \<in> set (rmatch a s) \<Longrightarrow> \<exists>w. s = w @ r"
proof (induction a arbitrary: g r s)
  case (Cls p m hi)
  then show ?case unfolding in_rmatch_Cls by (metis append_take_drop_id)
next
  case (Seq a b)
  then show ?case unfolding in_rmatch_Seq by (metis append.assoc)
next
  case (Opt a)
  then show ?case unfolding in_rmatch_Opt by (metis append_Nil)
next
  case (Grp a)
  then show ?case unfolding in_rmatch_Grp by metis
qed

lemma re_search_SomeD:
  "re_search a s = Some (w, g) \<Longrightarrow>
     \<exists>pre t r rest. s = pre @ t \<and> rmatch a t = (g, r) # rest \<and> w = take (length t - length r) t"
proof (induction s)
  case Nil
  then show ?case by (auto split: list.splits)
next
  case (Cons c cs)
  show ?case
  proof (cases "rmatch a (c # cs)")
    case Nil
    with Cons.prems have "re_search a cs = Some (w, g)" by simp
    from Cons.IH[OF this] obtain pre t r rest where
      "cs = pre @ t" "rmatch a t = (g, r) # rest" "w = take (length t - length r) t" by blast
    then have "c # cs = (c # pre) @ t" by simp
    then show ?thesis using \<open>rmatch a t = (g, r) # rest\<close> \<open>w = take (length t - length r) t\<close> by blast
  next
    case (Cons x xs)
    obtain g' r' where x: "x = (g', r')" by (cases x)
    with Cons Cons.prems have "w = take (length (c # cs) - length r') (c # cs)" "g = g'"
      by auto
    then show ?thesis using Cons x by (metis append_Nil)
  qed
qed

lemma re_search_found:
  "rmatch a t \<noteq> [] \<Longrightarrow> re_search a (pre @ t) \<noteq> None"
proof (induction pre)
  case Nil
  then show ?case by (cases t) (auto split: list.splits)
next
  case (Cons c pre)
  then show ?case by (auto split: list.splits)
qed

lemma not_digit_dot [simp]: "\<not> is_digit CHR ''.''" "\<not> is_digit CHR ''%''" "\<not> is_digit CHR ''$''" "\<not> is_digit CHR '',''"
  by (simp_all add: is_digit_def digit_value_def)


lemma in_rmatch_lit:
  "(g, r) \<in> set (rmatch (Cls (\<lambda>c. c = x) 1 (Some 1)) s) \<longleftrightarrow> g = None \<and> s = x # r"
proof (cases s)
  case Nil
  then show ?thesis by simp
next
  case (Cons c cs)
  then show ?thesis by (cases "c = x") (auto simp: Let_def)
qed

lemma in_rmatch_number_rx:
  "(g, r) \<in> set (rmatch number_rx s) \<longleftrightarrow>
     g = None \<and>
     (\<exists>k. 1 \<le> k \<and> k \<le> length (takeWhile is_digit s) \<and>
          (r = drop k s \<or>
           (\<exists>j t. drop k s = CHR ''.'' # t \<and> 1 \<le> j \<and> j \<le> 2
                  \<and> j \<le> length (takeWhile is_digit t) \<and> r = drop j t)))"
  unfolding number_rx_def in_rmatch_Seq in_rmatch_Opt in_rmatch_lit
  unfolding in_rmatch_Cls
  by (auto split: option.splits)

lemma number_shape_int:
  assumes "ds \<noteq> []" "list_all is_digit ds"
  shows "number_shape ds"
proof -
  have tw: "takeWhile is_digit ds = ds"
    using assms(2) by (simp add: takeWhile_eq_all_conv list_all_iff)
  have dw: "dropWhile is_digit ds = []"
    using assms(2) by (simp add: list_all_iff)
  show ?thesis unfolding number_shape_def Let_def tw dw using assms(1) by simp
qed

lemma number_shape_frac:
  assumes "ds \<noteq> []" "list_all is_digit ds" "f \<noteq> []" "length f \<le> 2" "list_all is_digit f"
  shows "number_shape (ds @ CHR ''.'' # f)"
proof -
  have "takeWhile is_digit (ds @ CHR ''.'' # f) = ds"
    using assms(2) by (simp add: takeWhile_append2 list_all_iff)
  moreover have "dropWhile is_digit (ds @ CHR ''.'' # f) = CHR ''.'' # f"
    using assms(2) by (simp add: dropWhile_append2 list_all_iff)
  ultimately show ?thesis using assms by (simp add: number_shape_def Let_def)
qed

lemma rmatch_number_rx:
  assumes "(g, r) \<in> set (rmatch number_rx s)"
  shows "g = None \<and> (\<exists>w. s = w @ r \<and> number_shape w)"
proof -
  from assms obtain k where g: "g = None" and k: "1 \<le> k" "k \<le> length (takeWhile is_digit s)"
    and alt: "r = drop k s \<or>
           (\<exists>j t. drop k s = CHR ''.'' # t \<and> 1 \<le> j \<and> j \<le> 2
                  \<and> j \<le> length (takeWhile is_digit t) \<and> r = drop j t)"
    unfolding in_rmatch_number_rx by blast
  have ds: "list_all is_digit (take k s)" using k(2) by (rule take_takeWhile_all)
  have "k \<le> length s" using k(2) length_takeWhile_le[of is_digit s] by linarith
  with k(1) have ne: "take k s \<noteq> []" by auto
  from alt show ?thesis
  proof
    assume "r = drop k s"
    then have "s = take k s @ r" by simp
    with number_shape_int[OF ne ds] g show ?thesis by blast
  next
    assume "\<exists>j t. drop k s = CHR ''.'' # t \<and> 1 \<le> j \<and> j \<le> 2
                  \<and> j \<le> length (takeWhile is_digit t) \<and> r = drop j t"
    then obtain j t where t: "drop k s = CHR ''.'' # t" and j: "1 \<le> j" "j \<le> 2"
       "j \<le> length (takeWhile is_digit t)" and r: "r = drop j t" by blast
    have fd: "list_all is_digit (take j t)" using j(3) by (rule take_takeWhile_all)
    have "j \<le> length t" using j(3) length_takeWhile_le[of is_digit t] by linarith
    with j(1) have fne: "take j t \<noteq> []" by auto
    have "s = take k s @ drop k s" by simp
    also have "\<dots> = (take k s @ CHR ''.'' # take j t) @ r" using t r by simp
    finally have "s = (take k s @ CHR ''.'' # take j t) @ r" .
    moreover have "number_shape (take k s @ CHR ''.'' # take j t)"
      using ne ds fne j(2) fd by (intro number_shape_frac) auto
    ultimately show ?thesis using g by blast
  qed
qed

lemma rmatch_number_rx_single:
  assumes "is_digit d" "\<not> is_digit c" "c \<noteq> CHR ''.''"
  shows "(None, c # t) \<in> set (rmatch number_rx (d # c # t))"
  unfolding in_rmatch_number_rx using assms by (auto intro!: exI[of _ 1])

lemma rmatch_number_rx_nonempty:
  assumes "is_digit d"
  shows "rmatch number_rx (d # t) \<noteq> []"
proof -
  have "(None, t) \<in> set (rmatch number_rx (d # t))"
    unfolding in_rmatch_number_rx using assms by (auto intro!: exI[of _ 1])
  then show ?thesis by auto
qed

lemma in_rmatch_fixed_rx:
  "(g, r) \<in> set (rmatch fixed_rx s) \<longleftrightarrow>
     (\<exists>t. s = CHR ''$'' # t \<and> (None, r) \<in> set (rmatch number_rx t)
          \<and> g = Some (take (length t - length r) t))"
  unfolding fixed_rx_def in_rmatch_Seq in_rmatch_lit in_rmatch_Grp
  by (auto dest: rmatch_number_rx)

lemma in_rmatch_percent_rx:
  "(g, r) \<in> set (rmatch percent_rx s) \<longleftrightarrow>
     (\<exists>r1. (None, r1) \<in> set (rmatch number_rx s) \<and> r1 = CHR ''%'' # r
          \<and> g = Some (take (length s - length r1) s))"
  unfolding percent_rx_def in_rmatch_Seq in_rmatch_lit in_rmatch_Grp
  by (auto dest: rmatch_number_rx)


section \<open>Searching for the coupon patterns\<close>

lemma re_search_fixed_SomeD:
  assumes "re_search fixed_rx text = Some (w, g)"
  shows "\<exists>pre num post. text = pre @ CHR ''$'' # num @ post \<and> g = Some num \<and> number_shape num"
proof -
  from re_search_SomeD[OF assms] obtain pre t r rest where
    tx: "text = pre @ t" and m: "rmatch fixed_rx t = (g, r) # rest" by blast
  from m have "(g, r) \<in> set (rmatch fixed_rx t)" by simp
  then obtain t' where t: "t = CHR ''$'' # t'" and n: "(None, r) \<in> set (rmatch number_rx t')"
    and g: "g = Some (take (length t' - length r) t')"
    unfolding in_rmatch_fixed_rx by blast
  from rmatch_number_rx[OF n] obtain num where num: "t' = num @ r" "number_shape num" by blast
  then have "g = Some num" using g by simp
  with tx t num show ?thesis by blast
qed

lemma re_search_fixed_found:
  assumes "is_digit d"
  shows "re_search fixed_rx (pre @ CHR ''$'' # d # post) \<noteq> None"
proof -
  from rmatch_number_rx_nonempty[OF assms, of post]
  obtain g r where "(g, r) \<in> set (rmatch number_rx (d # post))"
    by (cases "rmatch number_rx (d # post)") auto
  with rmatch_number_rx[of g r "d # post"] have "(None, r) \<in> set (rmatch number_rx (d # post))"
    by blast
  then have "(Some (take (length (d # post) - length r) (d # post)), r)
               \<in> set (rmatch fixed_rx (CHR ''$'' # d # post))"
    unfolding in_rmatch_fixed_rx by blast
  then have "rmatch fixed_rx (CHR ''$'' # d # post) \<noteq> []" by auto
  then show ?thesis by (rule re_search_found)
qed

lemma re_search_percent_SomeD:
  assumes "re_search percent_rx text = Some (w, g)"
  shows "\<exists>pre num post. text = pre @ num @ CHR ''%'' # post \<and> g = Some num \<and> number_shape num"
proof -
  from re_search_SomeD[OF assms] obtain pre t r rest where
    tx: "text = pre @ t" and m: "rmatch percent_rx t = (g, r) # rest" by blast
  from m have "(g, r) \<in> set (rmatch percent_rx t)" by simp
  then have n: "(None, CHR ''%'' # r) \<in> set (rmatch number_rx t)"
    and g: "g = Some (take (length t - length (CHR ''%'' # r)) t)"
    unfolding in_rmatch_percent_rx by blast+
  from rmatch_number_rx[OF n] obtain num where num: "t = num @ CHR ''%'' # r" "number_shape num"
    by blast
  then have "g = Some num" using g by simp
  with tx num show ?thesis by blast
qed

lemma re_search_percent_found:
  assumes "is_digit d"
  shows "re_search percent_rx (pre @ d # CHR ''%'' # post) \<noteq> None"
proof -
  have "(None, CHR ''%'' # post) \<in> set (rmatch number_rx (d # CHR ''%'' # post))"
    using assms by (intro rmatch_number_rx_single) auto
  then have "(Some (take (length (d # CHR ''%'' # post) - length (CHR ''%'' # post))
                      (d # CHR ''%'' # post)), post)
               \<in> set (rmatch percent_rx (d # CHR ''%'' # post))"
    unfolding in_rmatch_percent_rx by blast
  then have "rmatch percent_rx (d # CHR ''%'' # post) \<noteq> []" by auto
  then show ?thesis by (rule re_search_found)
qed

lemma to_float_nonneg: "0 \<le> q \<Longrightarrow> float_nonneg (to_float q)"
  by (simp add: to_float_def)

lemma py_float_nonneg: "py_float s = Inr x \<Longrightarrow> float_nonneg x"
  by (auto simp: py_float_def Let_def to_float_nonneg split: list.splits if_splits)

lemma py_float_number_shape:
  assumes "number_shape s"
  shows "\<exists>x. py_float s = Inr x"
proof (cases "dropWhile is_digit s")
  case Nil
  with assms show ?thesis
    unfolding py_float_def number_shape_def Let_def by (simp del: dropWhile_eq_Nil_conv)
next
  case (Cons c f)
  with assms show ?thesis
    unfolding py_float_def number_shape_def Let_def by simp
qed

lemma check_coupon_type_fixed:
  assumes "re_search fixed_rx text \<noteq> None"
  shows "\<exists>v. check_coupon_type text = Inr (Some (''fixed'', v))"
proof -
  from assms obtain w g where s: "re_search fixed_rx text = Some (w, g)" by auto
  from re_search_fixed_SomeD[OF s] obtain num where "g = Some num" "number_shape num" by blast
  with py_float_number_shape[of num] s show ?thesis
    by (auto simp: check_coupon_type_def)
qed

lemma check_coupon_type_percent:
  assumes "re_search fixed_rx text = None" "re_search percent_rx text \<noteq> None"
  shows "\<exists>v. check_coupon_type text = Inr (Some (''percentage'', v))"
proof -
  from assms obtain w g where s: "re_search percent_rx text = Some (w, g)" by auto
  from re_search_percent_SomeD[OF s] obtain num where "g = Some num" "number_shape num" by blast
  with py_float_number_shape[of num] s assms(1) show ?thesis
    by (auto simp: check_coupon_type_def)
qed

lemma check_coupon_type_none:
  assumes "re_search fixed_rx text = None" "re_search percent_rx text = None"
  shows "check_coupon_type text = Inr None"
  using assms by (simp add: check_coupon_type_def)

lemma number_shape_hd:
  assumes "number_shape num"
  shows "\<exists>d rest. num = d # rest \<and> is_digit d"
proof (cases num)
  case Nil
  with assms show ?thesis by (simp add: number_shape_def)
next
  case (Cons d rest)
  with assms show ?thesis by (cases "is_digit d") (simp_all add: number_shape_def)
qed

lemma fixed_match_iff:
  "re_search fixed_rx text \<noteq> None \<longleftrightarrow>
     (\<exists>pre d post. text = pre @ CHR ''$'' # d # post \<and> is_digit d)"
proof
  assume "re_search fixed_rx text \<noteq> None"
  then obtain w g where "re_search fixed_rx text = Some (w, g)" by auto
  from re_search_fixed_SomeD[OF this] obtain pre num post where
    tx: "text = pre @ CHR ''$'' # num @ post" and "number_shape num" by blast
  from number_shape_hd[OF this(2)] obtain d rest where "num = d # rest" "is_digit d" by blast
  with tx have "text = pre @ CHR ''$'' # d # (rest @ post)" by simp
  with \<open>is_digit d\<close> show "\<exists>pre d post. text = pre @ CHR ''$'' # d # post \<and> is_digit d" by blast
next
  assume "\<exists>pre d post. text = pre @ CHR ''$'' # d # post \<and> is_digit d"
  then show "re_search fixed_rx text \<noteq> None" using re_search_fixed_found by blast
qed


section \<open>Coupon classification: precedence\<close>

text \<open>
  Claim C6.  The fixed-amount pattern is searched before the percentage pattern: a message
  that holds a dollar sign followed by a digit and also a digit followed by a percent sign
  is classified as fixed.  \<open>Save $10 on this item\<close> gives a fixed coupon of \<open>10\<close>,
  \<open>15% off select items\<close> a percentage coupon of \<open>15\<close>.
\<close>

theorem coupon_fixed_before_percentage:
  "(is_digit d \<and> is_digit e \<and> msg = pre @ CHR ''$'' # d # post
      \<and> msg = pre' @ e # CHR ''%'' # post'
     \<longrightarrow> (\<exists>v. check_coupon_type msg = Inr (Some (''fixed'', v))))
   \<and> check_coupon_type ''Save $10 on this item'' = Inr (Some (''fixed'', Finite 10))
   \<and> check_coupon_type ''15% off select items'' = Inr (Some (''percentage'', Finite 15))"
proof (intro conjI impI)
  assume "is_digit d \<and> is_digit e \<and> msg = pre @ CHR ''$'' # d # post
      \<and> msg = pre' @ e # CHR ''%'' # post'"
  then have "re_search fixed_rx msg \<noteq> None" using re_search_fixed_found by blast
  then show "\<exists>v. check_coupon_type msg = Inr (Some (''fixed'', v))"
    by (rule check_coupon_type_fixed)
next
  show "check_coupon_type ''Save $10 on this item'' = Inr (Some (''fixed'', Finite 10))"
    by (simp add: check_coupon_type_def rx_defs float_defs)
next
  show "check_coupon_type ''15% off select items'' = Inr (Some (''percentage'', Finite 15))"
    by (simp add: check_coupon_type_def rx_defs float_defs)
qed

text \<open>
  The precedence at a message that holds both patterns, \<open>Save $5 or 10%\<close>.
\<close>

theorem coupon_fixed_before_percentage_witness:
  "is_digit CHR ''5'' \<and> is_digit CHR ''0''
   \<and> ''Save $5 or 10%'' = ''Save '' @ CHR ''$'' # CHR ''5'' # '' or 10%''
   \<and> ''Save $5 or 10%'' = ''Save $5 or 1'' @ CHR ''0'' # CHR ''%'' # ''''
   \<and> (\<exists>v. check_coupon_type ''Save $5 or 10%'' = Inr (Some (''fixed'', v)))"
proof -
  have h: "is_digit CHR ''5'' \<and> is_digit CHR ''0''
   \<and> ''Save $5 or 10%'' = ''Save '' @ CHR ''$'' # CHR ''5'' # '' or 10%''
   \<and> ''Save $5 or 10%'' = ''Save $5 or 1'' @ CHR ''0'' # CHR ''%'' # ''''"
    by (simp add: is_digit_def digit_value_def)
  from coupon_fixed_before_percentage[where d="CHR ''5''" and e="CHR ''0''"
      and msg="''Save $5 or 10%''" and pre="''Save ''" and post="'' or 10%''"
      and pre'="''Save $5 or 1''" and post'="''''", THEN conjunct1, THEN mp, OF h]
  show ?thesis using h by blast
qed


section \<open>Coupon classification: what is captured\<close>

lemma check_coupon_type_cases:
  assumes "check_coupon_type msg = Inr (Some (ty, v))"
  shows "\<exists>pre num post. number_shape num \<and> py_float num = Inr v \<and>
           ((ty = ''fixed'' \<and> msg = pre @ CHR ''$'' # num @ post)
            \<or> (ty = ''percentage'' \<and> msg = pre @ num @ CHR ''%'' # post))"
proof (cases "re_search fixed_rx msg")
  case (Some m)
  obtain w g where m: "m = (w, g)" by (cases m)
  from re_search_fixed_SomeD[of msg w g] Some m obtain pre num post where
    d: "msg = pre @ CHR ''$'' # num @ post" "g = Some num" "number_shape num" by auto
  from py_float_number_shape[OF d(3)] obtain x where x: "py_float num = Inr x" by blast
  with assms Some m d(2) have "ty = ''fixed''" "v = x"
    by (simp_all add: check_coupon_type_def)
  with d x show ?thesis by blast
next
  case None
  note fixed_none = this
  show ?thesis
  proof (cases "re_search percent_rx msg")
    case None
    with fixed_none assms show ?thesis by (simp add: check_coupon_type_def)
  next
    case (Some m)
    obtain w g where m: "m = (w, g)" by (cases m)
    from re_search_percent_SomeD[of msg w g] Some m obtain pre num post where
      d: "msg = pre @ num @ CHR ''%'' # post" "g = Some num" "number_shape num" by auto
    from py_float_number_shape[OF d(3)] obtain x where x: "py_float num = Inr x" by blast
    with assms Some fixed_none m d(2) have "ty = ''percentage''" "v = x"
      by (simp_all add: check_coupon_type_def)
    with d x show ?thesis by blast
  qed
qed

lemma check_coupon_type_total: "\<exists>r. check_coupon_type msg = Inr r"
proof (cases "re_search fixed_rx msg = None")
  case False
  then show ?thesis using check_coupon_type_fixed by blast
next
  case True
  then show ?thesis
    using check_coupon_type_percent[of msg] check_coupon_type_none[of msg] by blast
qed

text \<open>
  Claim C10.  A message is classified as fixed only when it holds a dollar sign followed at
  once by a number; the number captured for either variant is a run of digits with at most
  two digits after a period, and the amount is \<open>float\<close> of that text.  A message with no
  dollar sign, whatever other currency symbol it holds, is never classified as fixed.
\<close>

theorem coupon_fixed_needs_dollar_digit:
  "(check_coupon_type msg = Inr (Some (ty, v)) \<longrightarrow>
      (\<exists>pre num post. number_shape num \<and> py_float num = Inr v \<and>
           ((ty = ''fixed'' \<and> msg = pre @ CHR ''$'' # num @ post)
            \<or> (ty = ''percentage'' \<and> msg = pre @ num @ CHR ''%'' # post))))
   \<and> (CHR ''$'' \<notin> set msg \<longrightarrow> check_coupon_type msg \<noteq> Inr (Some (''fixed'', v)))"
proof (intro conjI impI)
  assume "check_coupon_type msg = Inr (Some (ty, v))"
  then show "\<exists>pre num post. number_shape num \<and> py_float num = Inr v \<and>
           ((ty = ''fixed'' \<and> msg = pre @ CHR ''$'' # num @ post)
            \<or> (ty = ''percentage'' \<and> msg = pre @ num @ CHR ''%'' # post))"
    by (rule check_coupon_type_cases)
next
  assume nd: "CHR ''$'' \<notin> set msg"
  show "check_coupon_type msg \<noteq> Inr (Some (''fixed'', v))"
  proof
    assume "check_coupon_type msg = Inr (Some (''fixed'', v))"
    from check_coupon_type_cases[OF this] obtain pre num post where
      "msg = pre @ CHR ''$'' # num @ post" by auto
    with nd show False by simp
  qed
qed

text \<open>
  The theorem at \<open>Save $10.999 today\<close>, where only two digits of the fraction are
  captured, and at a price in pounds (U+00A3), which is not fixed.
\<close>

theorem coupon_fixed_needs_dollar_digit_witness:
  "check_coupon_type ''Save $10.999 today'' = Inr (Some (''fixed'', Finite 10.99))
   \<and> (\<exists>pre num post. number_shape num \<and> py_float num = Inr (Finite 10.99) \<and>
           ((''fixed'' = ''fixed'' \<and> ''Save $10.999 today'' = pre @ CHR ''$'' # num @ post)
            \<or> (''fixed'' = ''percentage'' \<and> ''Save $10.999 today'' = pre @ num @ CHR ''%'' # post)))
   \<and> CHR ''$'' \<notin> set (CHR 0xA3 # ''10 off'')
   \<and> check_coupon_type (CHR 0xA3 # ''10 off'') \<noteq> Inr (Some (''fixed'', Finite 10))"
proof -
  have a: "check_coupon_type ''Save $10.999 today'' = Inr (Some (''fixed'', Finite 10.99))"
    by (simp add: check_coupon_type_def rx_defs float_defs)
  have b: "CHR ''$'' \<notin> set (CHR 0xA3 # ''10 off'')" by simp
  note t1 = coupon_fixed_needs_dollar_digit[where msg="''Save $10.999 today''" and ty="''fixed''"
      and v="Finite 10.99", THEN conjunct1, THEN mp, OF a]
  note t2 = coupon_fixed_needs_dollar_digit[where msg="CHR 0xA3 # ''10 off''"
      and v="Finite 10", THEN conjunct2, THEN mp, OF b]
  from a t1 b t2 show ?thesis by blast
qed

section \<open>Coupon classification: the range of the amount\<close>

text \<open>
  Claim C7, as stated, fails: \<open>$0 off\<close> is classified as a fixed coupon of \<open>0\<close> and
  \<open>150% off\<close> as a percentage coupon of \<open>150\<close>, neither within the data model's
  invariant.  The parser checks no range.
\<close>

theorem coupon_invariant_counterexample:
  "check_coupon_type ''$0 off'' = Inr (Some (''fixed'', Finite 0))
   \<and> \<not> coupon_invariant (''fixed'', Finite 0)
   \<and> check_coupon_type ''150% off'' = Inr (Some (''percentage'', Finite 150))
   \<and> \<not> coupon_invariant (''percentage'', Finite 150)"
  by (simp add: check_coupon_type_def rx_defs float_defs coupon_invariant_def)

text \<open>
  Claim C7, amended.  \<open>check_coupon_type\<close> never raises; a coupon it produces carries
  one of the two tags \<open>fixed\<close> and \<open>percentage\<close> and an amount that is not negative; so
  does a coupon \<open>parse_product_coupon\<close> returns.
\<close>

theorem coupon_tagged_nonneg:
  "(\<exists>r. check_coupon_type msg = Inr r)
   \<and> (check_coupon_type msg = Inr (Some (ty, v)) \<longrightarrow>
        (ty = ''fixed'' \<or> ty = ''percentage'') \<and> float_nonneg v)
   \<and> (parse_product_coupon upn soup = (l, Inr (Some c)) \<longrightarrow>
        (coupon_type c = ''fixed'' \<or> coupon_type c = ''percentage'')
        \<and> float_nonneg (coupon_amount c))"
proof -
  have A: "(ty = ''fixed'' \<or> ty = ''percentage'') \<and> float_nonneg v"
    if "check_coupon_type msg = Inr (Some (ty, v))" for msg ty v
    using check_coupon_type_cases[OF that] py_float_nonneg by blast
  have B: "(coupon_type c = ''fixed'' \<or> coupon_type c = ''percentage'')
        \<and> float_nonneg (coupon_amount c)"
    if "parse_product_coupon upn soup = (l, Inr (Some c))"
  proof -
    from that obtain m where "check_coupon_type m = Inr (Some (coupon_type c, coupon_amount c))"
      by (auto simp: parse_product_coupon_def unpack_pair_def Let_def
               split: option.splits sum.splits if_splits)
    then show ?thesis by (rule A)
  qed
  from A B check_coupon_type_total show ?thesis by blast
qed

text \<open>The amended property at \<open>$0 off\<close> and at a page whose coupon reads \<open>150% off\<close>.\<close>

theorem coupon_tagged_nonneg_witness:
  "check_coupon_type ''$0 off'' = Inr (Some (''fixed'', Finite 0))
   \<and> float_nonneg (Finite 0)
   \<and> parse_product_coupon None (coupon_page ''150% off'')
       = ([], Inr (Some \<lparr>coupon_type = ''percentage'', coupon_amount = Finite 150\<rparr>))
   \<and> float_nonneg (Finite 150)"
proof -
  have a: "check_coupon_type ''$0 off'' = Inr (Some (''fixed'', Finite 0))"
    by (simp add: check_coupon_type_def rx_defs float_defs)
  have b: "parse_product_coupon None (coupon_page ''150% off'')
       = ([], Inr (Some \<lparr>coupon_type = ''percentage'', coupon_amount = Finite 150\<rparr>))"
    by (simp add: parse_product_coupon_def check_coupon_type_def unpack_pair_def
        doc_defs find_defs text_defs rx_defs float_defs)
  note t = coupon_tagged_nonneg[where msg="''$0 off''" and ty="''fixed''" and v="Finite 0"
      and upn=None and soup="coupon_page ''150% off''" and l="[]"
      and c="\<lparr>coupon_type = ''percentage'', coupon_amount = Finite 150\<rparr>"]
  from t a b show ?thesis by simp
qed


section \<open>The price text\<close>

lemma price_rx_class: "price_rx = Cls price_char 1 None"
  by (simp add: price_rx_def price_char_def[abs_def])

lemma rmatch_price_rx_Nil:
  "takeWhile price_char s = [] \<Longrightarrow> rmatch price_rx s = []"
  by (simp add: price_rx_class)

lemma rmatch_price_rx_Cons:
  assumes "takeWhile price_char s \<noteq> []"
  shows "\<exists>rest. rmatch price_rx s = (None, dropWhile price_char s) # rest"
proof -
  define n where "n = length (takeWhile price_char s)"
  have n: "0 < n" using assms by (simp add: n_def)
  then have "rev [1 ..< Suc n] = n # rev [1 ..< n]" by simp
  moreover have "drop n s = dropWhile price_char s"
    unfolding n_def by (simp add: dropWhile_eq_drop)
  ultimately show ?thesis
    by (simp add: price_rx_class Let_def n_def[symmetric])
qed

lemma take_run: "take (length s - length (dropWhile p s)) s = takeWhile p s"
proof -
  have "length (takeWhile p s) \<le> length s" by (rule length_takeWhile_le)
  then have "length s - length (dropWhile p s) = length (takeWhile p s)"
    by (simp add: dropWhile_eq_drop)
  then show ?thesis by (simp add: takeWhile_eq_take[symmetric])
qed

lemma re_search_price_rx:
  "re_search price_rx s =
     (case dropWhile (\<lambda>c. \<not> price_char c) s of
        [] \<Rightarrow> None
      | c # cs \<Rightarrow> Some (takeWhile price_char (c # cs), None))"
proof (induction s)
  case Nil
  then show ?case by (simp add: price_rx_class)
next
  case (Cons a s)
  show ?case
  proof (cases "price_char a")
    case True
    then have "takeWhile price_char (a # s) \<noteq> []" by simp
    from rmatch_price_rx_Cons[OF this] obtain rest where
      r: "rmatch price_rx (a # s) = (None, dropWhile price_char (a # s)) # rest" by blast
    have "re_search price_rx (a # s) = Some (takeWhile price_char (a # s), None)"
      using r take_run[of "a # s" price_char] by (simp del: takeWhile.simps dropWhile.simps)
    with True show ?thesis by simp
  next
    case False
    then have "rmatch price_rx (a # s) = []" by (simp add: rmatch_price_rx_Nil)
    with False Cons.IH show ?thesis by simp
  qed
qed

lemma py_float_no_digit:
  assumes "\<not> list_ex is_digit s"
  shows "py_float s = Inl ValueError"
proof (cases s)
  case Nil
  then show ?thesis by (simp add: py_float_def)
next
  case (Cons c fp)
  with assms have c: "\<not> is_digit c" and fp: "\<not> list_ex is_digit fp" by simp_all
  from fp have "list_all is_digit fp \<Longrightarrow> fp = []" by (cases fp) simp_all
  with c Cons show ?thesis by (auto simp: py_float_def)
qed

lemma py_float_value:
  assumes "py_float s = Inr x"
  shows "\<exists>q. 0 \<le> q \<and> x = to_float q"
proof -
  from assms have "(\<exists>n. x = to_float (rat_of_nat n)) \<or> (\<exists>n k. x = to_float (rat_of_nat n / 10 ^ k))"
    by (auto simp: py_float_def Let_def split: list.splits if_splits)
  then show ?thesis
  proof (elim disjE exE)
    fix n assume "x = to_float (rat_of_nat n)"
    moreover have "0 \<le> rat_of_nat n" by simp
    ultimately show ?thesis by blast
  next
    fix n k assume "x = to_float (rat_of_nat n / 10 ^ k)"
    moreover have "0 \<le> rat_of_nat n / 10 ^ k" by simp
    ultimately show ?thesis by blast
  qed
qed

lemma py_float_Inl: "py_float s = Inl e \<Longrightarrow> e = ValueError"
  by (auto simp: py_float_def Let_def split: list.splits if_splits)

lemma py_float_decimal:
  assumes "ds \<noteq> []" "list_all is_digit ds" "list_all is_digit fp"
  shows "py_float ds = Inr (to_float (of_nat (nat_of_digits ds)))"
    and "py_float (ds @ CHR ''.'' # fp)
           = Inr (to_float (of_nat (nat_of_digits (ds @ fp)) / 10 ^ length fp))"
proof -
  have tw: "takeWhile is_digit ds = ds" "dropWhile is_digit ds = []"
    using assms(2) by (simp_all add: takeWhile_eq_all_conv list_all_iff)
  show "py_float ds = Inr (to_float (of_nat (nat_of_digits ds)))"
    unfolding py_float_def Let_def tw using assms(1) by simp
  have tw2: "takeWhile is_digit (ds @ CHR ''.'' # fp) = ds"
     "dropWhile is_digit (ds @ CHR ''.'' # fp) = CHR ''.'' # fp"
    using assms(2) by (simp_all add: takeWhile_append2 dropWhile_append2 list_all_iff)
  show "py_float (ds @ CHR ''.'' # fp)
           = Inr (to_float (of_nat (nat_of_digits (ds @ fp)) / 10 ^ length fp))"
    unfolding py_float_def Let_def tw2 using assms(1,3) by simp
qed


lemma list_all_ex: "xs \<noteq> [] \<Longrightarrow> list_all P xs \<Longrightarrow> list_ex P xs"
  by (cases xs) simp_all

lemma filter_dot_digits: "list_all is_digit xs \<Longrightarrow> filter (\<lambda>c. c = CHR ''.'') xs = []"
  by (induction xs) auto

lemma py_float_text:
  assumes "py_float s = Inr x"
  shows "list_ex is_digit s \<and> length (filter (\<lambda>c. c = CHR ''.'') s) \<le> 1"
proof -
  define ip where "ip = takeWhile is_digit s"
  define rest where "rest = dropWhile is_digit s"
  have s: "s = ip @ rest" by (simp add: ip_def rest_def)
  have ipd: "list_all is_digit ip"
    unfolding ip_def list_all_iff by (blast dest: set_takeWhileD)
  have pf: "py_float s =
     (case rest of
           [] \<Rightarrow> if ip = [] then Inl ValueError
                 else Inr (to_float (of_nat (nat_of_digits ip)))
         | c # fp \<Rightarrow>
             if c = CHR ''.'' \<and> list_all is_digit fp \<and> \<not> (ip = [] \<and> fp = [])
             then Inr (to_float (of_nat (nat_of_digits (ip @ fp)) / 10 ^ length fp))
             else Inl ValueError)"
    unfolding py_float_def Let_def ip_def rest_def ..
  show ?thesis
  proof (cases rest)
    case Nil
    with assms pf have "ip \<noteq> []" by (auto split: if_splits)
    with ipd have "list_ex is_digit ip" by (simp add: list_all_ex)
    moreover have "filter (\<lambda>c. c = CHR ''.'') ip = []" using ipd by (rule filter_dot_digits)
    ultimately show ?thesis unfolding s Nil by simp
  next
    case (Cons c fp)
    with assms pf have c: "c = CHR ''.''" and fp: "list_all is_digit fp"
      and ne: "\<not> (ip = [] \<and> fp = [])"
      by (auto split: if_splits)
    have f1: "filter (\<lambda>c. c = CHR ''.'') ip = []" using ipd by (rule filter_dot_digits)
    have f2: "filter (\<lambda>c. c = CHR ''.'') fp = []" using fp by (rule filter_dot_digits)
    have "list_ex is_digit ip \<or> list_ex is_digit fp"
      using ne ipd fp list_all_ex by blast
    then show ?thesis unfolding s Cons c by (auto simp: f1 f2)
  qed
qed

lemma parse_product_price_found:
  assumes "find_name_id ''div'' ''corePrice_feature_div'' soup = Some price_element"
    and "find_name_class ''span'' ''a-offscreen'' price_element = Some price_text_tag"
  shows "parse_product_price upn soup =
     (case re_search price_rx (get_text price_text_tag) of
        Some (group0, _) \<Rightarrow>
          (case py_float (remove_commas group0) of
             Inr x \<Rightarrow> ([], Inr (Some x))
           | Inl e \<Rightarrow> ([(ERROR, ''Failed to convert price to float '' @ for_name upn)],
                        Inr None))
      | None \<Rightarrow> ([(WARNING, ''Product price not found '' @ for_name upn)], Inr None))"
  using assms
  by (auto simp: parse_product_price_def Let_def split: option.splits sum.splits exn.splits
           dest: py_float_Inl)

lemma price_page_finds:
  "find_name_id ''div'' ''corePrice_feature_div'' (price_page t)
     = Some (Tag ''div'' (Some ''corePrice_feature_div'') [] None
               [Tag ''span'' None [''a-offscreen''] None [NavigableString t]])"
  "find_name_class ''span'' ''a-offscreen''
     (Tag ''div'' (Some ''corePrice_feature_div'') [] None
               [Tag ''span'' None [''a-offscreen''] None [NavigableString t]])
     = Some (Tag ''span'' None [''a-offscreen''] None [NavigableString t])"
  "get_text (Tag ''span'' None [''a-offscreen''] None [NavigableString t])
     = strip t"
  by (simp_all add: doc_defs find_defs get_text_def strip_def)


lemma remove_commas_all_digits:
  "list_all (\<lambda>c. is_digit c \<or> c = CHR '','') whole \<Longrightarrow> list_all is_digit (remove_commas whole)"
  by (induction whole) (auto simp: remove_commas_def)

lemma remove_commas_nonempty:
  "list_ex is_digit whole \<Longrightarrow> remove_commas whole \<noteq> []"
  by (induction whole) (auto simp: remove_commas_def)

lemma remove_commas_digits:
  assumes "list_all (\<lambda>c. is_digit c \<or> c = CHR '','') whole" "list_ex is_digit whole"
  shows "remove_commas whole \<noteq> [] \<and> list_all is_digit (remove_commas whole)"
  using assms remove_commas_all_digits remove_commas_nonempty by blast

lemma remove_commas_no_comma: "list_all is_digit fp \<Longrightarrow> remove_commas fp = fp"
  by (induction fp) (auto simp: remove_commas_def)

lemma re_search_price_run:
  assumes "list_all (\<lambda>c. \<not> price_char c) symbol" "body \<noteq> []" "list_all price_char body"
    "rest = [] \<or> \<not> price_char (hd rest)"
  shows "re_search price_rx (symbol @ body @ rest) = Some (body, None)"
proof -
  obtain b bs where b: "body = b # bs" using assms(2) by (cases body) auto
  with assms(3) have pb: "price_char b" by simp
  have "dropWhile (\<lambda>c. \<not> price_char c) (symbol @ body @ rest) = body @ rest"
    using assms(1) pb b by (simp add: dropWhile_append2 list_all_iff)
  moreover have "takeWhile price_char rest = []"
    using assms(4) by (cases rest) auto
  then have "takeWhile price_char (body @ rest) = body"
    using assms(3) by (simp add: takeWhile_append2 list_all_iff)
  ultimately show ?thesis
    unfolding re_search_price_rx using b by (simp del: takeWhile.simps)
qed

section \<open>Price: locale-formatted text\<close>

text \<open>
  Claim C5.  When the price text is a currency symbol (any characters other than digits,
  commas and periods), then digits grouped by commas, then optionally a period and digits,
  and the number ends the text or is followed by another character, \<open>parse_product_price\<close>
  returns the number with the commas removed and the decimal point kept.  The text
  \<open>$1,234.56\<close> gives \<open>1234.56\<close>.
\<close>

theorem price_locale_text:
  "(find_name_id ''div'' ''corePrice_feature_div'' soup = Some price_element
    \<and> find_name_class ''span'' ''a-offscreen'' price_element = Some price_text_tag
    \<and> get_text price_text_tag = symbol @ whole @ fraction @ rest
    \<and> list_all (\<lambda>c. \<not> price_char c) symbol
    \<and> list_all (\<lambda>c. is_digit c \<or> c = CHR '','') whole \<and> list_ex is_digit whole
    \<and> (fraction = [] \<or> (\<exists>fp. fraction = CHR ''.'' # fp \<and> list_all is_digit fp))
    \<and> (rest = [] \<or> \<not> price_char (hd rest))
    \<longrightarrow> parse_product_price upn soup =
          ([], Inr (Some (to_float (of_nat (nat_of_digits (remove_commas whole @ tl fraction))
                                     / 10 ^ length (tl fraction))))))
   \<and> parse_product_price upn (price_page ''$1,234.56'') = ([], Inr (Some (Finite 1234.56)))"
proof (intro conjI impI)
  assume h: "find_name_id ''div'' ''corePrice_feature_div'' soup = Some price_element
    \<and> find_name_class ''span'' ''a-offscreen'' price_element = Some price_text_tag
    \<and> get_text price_text_tag = symbol @ whole @ fraction @ rest
    \<and> list_all (\<lambda>c. \<not> price_char c) symbol
    \<and> list_all (\<lambda>c. is_digit c \<or> c = CHR '','') whole \<and> list_ex is_digit whole
    \<and> (fraction = [] \<or> (\<exists>fp. fraction = CHR ''.'' # fp \<and> list_all is_digit fp))
    \<and> (rest = [] \<or> \<not> price_char (hd rest))"
  then have whole: "list_all (\<lambda>c. is_digit c \<or> c = CHR '','') whole" "list_ex is_digit whole"
    and fraction: "fraction = [] \<or> (\<exists>fp. fraction = CHR ''.'' # fp \<and> list_all is_digit fp)"
    by blast+
  from whole have wne: "whole \<noteq> []" by (cases whole) auto
  from whole(1) have wpc: "list_all price_char whole"
    by (auto simp: list_all_iff price_char_def)
  from fraction have fpc: "list_all price_char fraction"
    by (auto simp: list_all_iff price_char_def)
  have "re_search price_rx (symbol @ (whole @ fraction) @ rest) = Some (whole @ fraction, None)"
    using h wne wpc fpc by (intro re_search_price_run) auto
  with h have rs: "re_search price_rx (get_text price_text_tag) = Some (whole @ fraction, None)"
    by simp
  from remove_commas_digits[OF whole] have ds: "remove_commas whole \<noteq> []"
    "list_all is_digit (remove_commas whole)" by blast+
  have pf: "py_float (remove_commas (whole @ fraction)) =
      Inr (to_float (of_nat (nat_of_digits (remove_commas whole @ tl fraction))
                                     / 10 ^ length (tl fraction)))"
    using fraction
  proof
    assume "fraction = []"
    then show ?thesis using py_float_decimal(1)[OF ds, of "[]"] by (simp add: remove_commas_def)
  next
    assume "\<exists>fp. fraction = CHR ''.'' # fp \<and> list_all is_digit fp"
    then obtain fp where fp: "fraction = CHR ''.'' # fp" "list_all is_digit fp" by blast
    have "remove_commas (whole @ fraction) = remove_commas whole @ CHR ''.'' # fp"
      using fp remove_commas_no_comma[OF fp(2)] by (simp add: remove_commas_def)
    then show ?thesis using py_float_decimal(2)[OF ds fp(2)] fp(1) by simp
  qed
  from h have f: "find_name_id ''div'' ''corePrice_feature_div'' soup = Some price_element"
    "find_name_class ''span'' ''a-offscreen'' price_element = Some price_text_tag" by blast+
  show "parse_product_price upn soup =
          ([], Inr (Some (to_float (of_nat (nat_of_digits (remove_commas whole @ tl fraction))
                                     / 10 ^ length (tl fraction)))))"
    unfolding parse_product_price_found[OF f] rs using pf by simp
next
  show "parse_product_price upn (price_page ''$1,234.56'') = ([], Inr (Some (Finite 1234.56)))"
    by (simp add: parse_product_price_def remove_commas_def doc_defs find_defs text_defs
          rx_defs float_defs)
qed

text \<open>The theorem at the price text \<open>CDN$ 1,049.50 each\<close>, which gives \<open>1049.5\<close>.\<close>

theorem price_locale_text_witness:
  "find_name_id ''div'' ''corePrice_feature_div'' (price_page ''CDN$ 1,049.50 each'')
     = Some (Tag ''div'' (Some ''corePrice_feature_div'') [] None
               [Tag ''span'' None [''a-offscreen''] None [NavigableString ''CDN$ 1,049.50 each'']])
   \<and> find_name_class ''span'' ''a-offscreen''
       (Tag ''div'' (Some ''corePrice_feature_div'') [] None
          [Tag ''span'' None [''a-offscreen''] None [NavigableString ''CDN$ 1,049.50 each'']])
     = Some (Tag ''span'' None [''a-offscreen''] None [NavigableString ''CDN$ 1,049.50 each''])
   \<and> get_text (Tag ''span'' None [''a-offscreen''] None [NavigableString ''CDN$ 1,049.50 each''])
     = ''CDN$ '' @ ''1,049'' @ ''.50'' @ '' each''
   \<and> list_all (\<lambda>c. \<not> price_char c) ''CDN$ ''
   \<and> list_all (\<lambda>c. is_digit c \<or> c = CHR '','') ''1,049'' \<and> list_ex is_digit ''1,049''
   \<and> list_all is_digit ''50''
   \<and> \<not> price_char (hd '' each'')
   \<and> parse_product_price None (price_page ''CDN$ 1,049.50 each'')
     = ([], Inr (Some (Finite 1049.5)))"
proof -
  have f: "find_name_id ''div'' ''corePrice_feature_div'' (price_page ''CDN$ 1,049.50 each'')
     = Some (Tag ''div'' (Some ''corePrice_feature_div'') [] None
               [Tag ''span'' None [''a-offscreen''] None [NavigableString ''CDN$ 1,049.50 each'']])
   \<and> find_name_class ''span'' ''a-offscreen''
       (Tag ''div'' (Some ''corePrice_feature_div'') [] None
          [Tag ''span'' None [''a-offscreen''] None [NavigableString ''CDN$ 1,049.50 each'']])
     = Some (Tag ''span'' None [''a-offscreen''] None [NavigableString ''CDN$ 1,049.50 each''])
   \<and> get_text (Tag ''span'' None [''a-offscreen''] None [NavigableString ''CDN$ 1,049.50 each''])
     = ''CDN$ '' @ ''1,049'' @ ''.50'' @ '' each''"
    by (simp add: doc_defs find_defs text_defs)
  have c: "list_all (\<lambda>c. \<not> price_char c) ''CDN$ ''
   \<and> list_all (\<lambda>c. is_digit c \<or> c = CHR '','') ''1,049'' \<and> list_ex is_digit ''1,049''
   \<and> list_all is_digit ''50''
   \<and> \<not> price_char (hd '' each'')"
    by (simp add: price_char_def is_digit_def digit_value_def)
  from f c have h: "find_name_id ''div'' ''corePrice_feature_div'' (price_page ''CDN$ 1,049.50 each'')
     = Some (Tag ''div'' (Some ''corePrice_feature_div'') [] None
               [Tag ''span'' None [''a-offscreen''] None [NavigableString ''CDN$ 1,049.50 each'']])
   \<and> find_name_class ''span'' ''a-offscreen''
       (Tag ''div'' (Some ''corePrice_feature_div'') [] None
          [Tag ''span'' None [''a-offscreen''] None [NavigableString ''CDN$ 1,049.50 each'']])
     = Some (Tag ''span'' None [''a-offscreen''] None [NavigableString ''CDN$ 1,049.50 each''])
   \<and> get_text (Tag ''span'' None [''a-offscreen''] None [NavigableString ''CDN$ 1,049.50 each''])
     = ''CDN$ '' @ ''1,049'' @ ''.50'' @ '' each''
    \<and> list_all (\<lambda>c. \<not> price_char c) ''CDN$ ''
    \<and> list_all (\<lambda>c. is_digit c \<or> c = CHR '','') ''1,049'' \<and> list_ex is_digit ''1,049''
    \<and> (''.50'' = [] \<or> (\<exists>fp. ''.50'' = CHR ''.'' # fp \<and> list_all is_digit fp))
    \<and> ('' each'' = [] \<or> \<not> price_char (hd '' each''))"
    by simp
  have "parse_product_price None (price_page ''CDN$ 1,049.50 each'')
     = ([], Inr (Some (to_float (of_nat (nat_of_digits (remove_commas ''1,049'' @ tl ''.50''))
                                     / 10 ^ length (tl ''.50'')))))"
    by (rule price_locale_text[THEN conjunct1, THEN mp, OF h])
  then have "parse_product_price None (price_page ''CDN$ 1,049.50 each'')
     = ([], Inr (Some (Finite 1049.5)))"
    by (simp add: remove_commas_def float_defs digit_value_def)
  with f c show ?thesis by blast
qed


section \<open>Price: the value returned\<close>

lemma remove_commas_price_chars:
  "list_all price_char run \<Longrightarrow>
     list_all (\<lambda>c. is_digit c \<or> c = CHR ''.'') (remove_commas run)"
  by (induction run) (auto simp: remove_commas_def price_char_def)

lemma re_search_price_rx_SomeD:
  assumes "re_search price_rx s = Some (run, g)"
  shows "g = None \<and> run \<noteq> [] \<and> list_all price_char run \<and> set run \<subseteq> set s"
proof (cases "dropWhile (\<lambda>c. \<not> price_char c) s")
  case Nil
  with assms show ?thesis by (simp add: re_search_price_rx)
next
  case (Cons c cs)
  with assms have run: "run = takeWhile price_char (c # cs)" and g: "g = None"
    by (simp_all add: re_search_price_rx)
  have "price_char c" using Cons by (metis hd_dropWhile list.sel(1) list.distinct(1))
  then have ne: "run \<noteq> []" using run by simp
  have all: "list_all price_char run"
    unfolding run list_all_iff by (blast dest: set_takeWhileD)
  have "set run \<subseteq> set (c # cs)" unfolding run by (blast dest: set_takeWhileD)
  also have "\<dots> \<subseteq> set s" using Cons by (metis set_dropWhileD subsetI)
  finally show ?thesis using g ne all by blast
qed

lemma strip_id:
  assumes "s \<noteq> []" "\<not> is_space (hd s)" "\<not> is_space (last s)"
  shows "strip s = s"
proof -
  have "dropWhile is_space s = s" using assms(1,2) by (cases s) auto
  moreover have "dropWhile is_space (rev s) = rev s"
    using assms(1,3) by (cases "rev s") (auto simp: hd_rev[symmetric] simp del: hd_rev)
  ultimately show ?thesis by (simp add: strip_def)
qed

lemma nat_of_digits_zeros:
  "foldl (\<lambda>n c. 10 * n + (case digit_value c of None \<Rightarrow> 0 | Some d \<Rightarrow> d)) a (replicate k CHR ''0'')
     = a * 10 ^ k"
  by (induction k arbitrary: a) (simp_all add: digit_value_def)

lemma nat_of_digits_one_zeros: "nat_of_digits (CHR ''1'' # replicate k CHR ''0'') = 10 ^ k"
proof -
  have "nat_of_digits (CHR ''1'' # replicate k CHR ''0'')
          = (10 * 0 + (case digit_value CHR ''1'' of None \<Rightarrow> 0 | Some d \<Rightarrow> d)) * 10 ^ k"
    by (simp only: nat_of_digits_def foldl.simps nat_of_digits_zeros)
  then show ?thesis by (simp add: digit_value_def)
qed

lemma remove_commas_subset: "set (remove_commas s) \<subseteq> set s"
  by (auto simp: remove_commas_def)

text \<open>
  Claim C8, as stated, fails: a price text whose value is beyond the binary64 range, here
  \<open>1\<close> followed by 309 zeros, is returned as \<open>inf\<close>, which is not finite.
\<close>

theorem price_overflow_counterexample:
  "parse_product_price None (price_page (CHR ''1'' # replicate 309 CHR ''0''))
     = ([], Inr (Some Infinity))
   \<and> \<not> float_finite Infinity"
proof -
  let ?s = "CHR ''1'' # replicate 309 CHR ''0''"
  have d: "list_all is_digit ?s" by (simp add: list_all_iff is_digit_def digit_value_def)
  then have pc: "list_all price_char ?s" by (simp add: list_all_iff price_char_def)
  have "strip ?s = ?s" by (rule strip_id) (simp_all add: is_space_def)
  then have gt: "get_text (Tag ''span'' None [''a-offscreen''] None [NavigableString ?s]) = ?s"
    by (simp add: price_page_finds(3))
  have "re_search price_rx ([] @ ?s @ []) = Some (?s, None)"
    using pc by (intro re_search_price_run) simp_all
  then have rs: "re_search price_rx ?s = Some (?s, None)" by simp
  have rc: "remove_commas ?s = ?s" using d by (rule remove_commas_no_comma)
  have "py_float ?s = Inr (to_float (of_nat (nat_of_digits ?s)))"
    using d by (intro py_float_decimal(1)[of ?s "[]"]) simp_all
  also have "to_float (of_nat (nat_of_digits ?s)) = Infinity"
    unfolding nat_of_digits_one_zeros by (simp add: to_float_def overflow_threshold_def)
  finally have pf: "py_float ?s = Inr Infinity" .
  have "parse_product_price None (price_page ?s) = ([], Inr (Some Infinity))"
    unfolding parse_product_price_found[OF price_page_finds(1) price_page_finds(2)] gt rs
    by (simp add: rc pf)
  then show ?thesis by (simp add: float_finite_def)
qed

text \<open>
  Claim C8, amended.  A price that \<open>parse_product_price\<close> returns is not negative.  It is
  \<open>float\<close> of the first run of digits, commas and periods of the price text with the commas
  removed; that text holds digits and periods only, at least one digit and at most one
  period; the price is the text's value, or \<open>inf\<close> when the value reaches the overflow
  threshold.  Nothing is logged.
\<close>

theorem price_value_nonneg:
  "parse_product_price upn soup = (l, Inr (Some x)) \<longrightarrow>
     float_nonneg x \<and>
     (\<exists>price_element price_text_tag run q.
        find_name_id ''div'' ''corePrice_feature_div'' soup = Some price_element
        \<and> find_name_class ''span'' ''a-offscreen'' price_element = Some price_text_tag
        \<and> re_search price_rx (get_text price_text_tag) = Some (run, None)
        \<and> list_all (\<lambda>c. is_digit c \<or> c = CHR ''.'') (remove_commas run)
        \<and> list_ex is_digit (remove_commas run)
        \<and> length (filter (\<lambda>c. c = CHR ''.'') (remove_commas run)) \<le> 1
        \<and> py_float (remove_commas run) = Inr x
        \<and> 0 \<le> q \<and> x = to_float q)"
proof
  assume r: "parse_product_price upn soup = (l, Inr (Some x))"
  then obtain price_element where
    f1: "find_name_id ''div'' ''corePrice_feature_div'' soup = Some price_element"
    by (cases "find_name_id ''div'' ''corePrice_feature_div'' soup")
       (auto simp: parse_product_price_def)
  with r obtain price_text_tag where
    f2: "find_name_class ''span'' ''a-offscreen'' price_element = Some price_text_tag"
    by (cases "find_name_class ''span'' ''a-offscreen'' price_element")
       (auto simp: parse_product_price_def)
  note pf = parse_product_price_found[OF f1 f2, of upn]
  from r pf obtain run g where
    rs: "re_search price_rx (get_text price_text_tag) = Some (run, g)"
    by (cases "re_search price_rx (get_text price_text_tag)") auto
  from re_search_price_rx_SomeD[OF rs] have g: "g = None" and all: "list_all price_char run"
    by blast+
  from r pf rs have x: "py_float (remove_commas run) = Inr x"
    by (cases "py_float (remove_commas run)") auto
  from py_float_value[OF x] obtain q where q: "0 \<le> q" "x = to_float q" by blast
  from py_float_text[OF x] have t: "list_ex is_digit (remove_commas run)"
    "length (filter (\<lambda>c. c = CHR ''.'') (remove_commas run)) \<le> 1" by blast+
  have "float_nonneg x" using x by (rule py_float_nonneg)
  with f1 f2 rs g remove_commas_price_chars[OF all] t x q
  show "float_nonneg x \<and>
     (\<exists>price_element price_text_tag run q.
        find_name_id ''div'' ''corePrice_feature_div'' soup = Some price_element
        \<and> find_name_class ''span'' ''a-offscreen'' price_element = Some price_text_tag
        \<and> re_search price_rx (get_text price_text_tag) = Some (run, None)
        \<and> list_all (\<lambda>c. is_digit c \<or> c = CHR ''.'') (remove_commas run)
        \<and> list_ex is_digit (remove_commas run)
        \<and> length (filter (\<lambda>c. c = CHR ''.'') (remove_commas run)) \<le> 1
        \<and> py_float (remove_commas run) = Inr x
        \<and> 0 \<le> q \<and> x = to_float q)"
    by blast
qed

text \<open>The amended property at the price text \<open>$19.99\<close>.\<close>

theorem price_value_nonneg_witness:
  "parse_product_price None (price_page ''$19.99'') = ([], Inr (Some (Finite 19.99)))
   \<and> float_nonneg (Finite 19.99)"
proof -
  have a: "parse_product_price None (price_page ''$19.99'') = ([], Inr (Some (Finite 19.99)))"
    by (simp add: parse_product_price_def remove_commas_def doc_defs find_defs text_defs
          rx_defs float_defs)
  from price_value_nonneg[THEN mp, OF a] a show ?thesis by blast
qed

section \<open>Price: a text with no digit\<close>

text \<open>
  Claim C4, as stated, fails: for the price text \<open>Contact seller\<close> the method logs the very
  record it logs when the price container is missing, so the record does not tell a malformed
  value from a missing element.
\<close>

theorem price_no_digit_counterexample:
  "parse_product_price None (price_page ''Contact seller'')
     = ([(WARNING, ''Product price not found for None'')], Inr None)
   \<and> parse_product_price None empty_soup
     = ([(WARNING, ''Product price not found for None'')], Inr None)"
  by (simp add: parse_product_price_def doc_defs find_defs text_defs rx_defs)

text \<open>
  Claim C4, amended.  When the price container and its price-text node are present and the
  text holds no digit, \<open>parse_product_price\<close> returns \<open>None\<close> without raising and logs one
  record: the error \<open>Failed to convert price to float\<close> when the text holds a comma or a
  period, else the warning \<open>Product price not found\<close>.
\<close>

theorem price_text_without_digit:
  "find_name_id ''div'' ''corePrice_feature_div'' soup = Some price_element
   \<and> find_name_class ''span'' ''a-offscreen'' price_element = Some price_text_tag
   \<and> \<not> list_ex is_digit (get_text price_text_tag)
   \<longrightarrow> parse_product_price upn soup =
         ([if list_ex price_char (get_text price_text_tag)
           then (ERROR, ''Failed to convert price to float '' @ for_name upn)
           else (WARNING, ''Product price not found '' @ for_name upn)], Inr None)"
proof
  assume h: "find_name_id ''div'' ''corePrice_feature_div'' soup = Some price_element
   \<and> find_name_class ''span'' ''a-offscreen'' price_element = Some price_text_tag
   \<and> \<not> list_ex is_digit (get_text price_text_tag)"
  then have f: "find_name_id ''div'' ''corePrice_feature_div'' soup = Some price_element"
    "find_name_class ''span'' ''a-offscreen'' price_element = Some price_text_tag"
    and nd: "\<not> list_ex is_digit (get_text price_text_tag)" by blast+
  note pf = parse_product_price_found[OF f, of upn]
  show "parse_product_price upn soup =
         ([if list_ex price_char (get_text price_text_tag)
           then (ERROR, ''Failed to convert price to float '' @ for_name upn)
           else (WARNING, ''Product price not found '' @ for_name upn)], Inr None)"
  proof (cases "re_search price_rx (get_text price_text_tag)")
    case None
    then have "dropWhile (\<lambda>c. \<not> price_char c) (get_text price_text_tag) = []"
      by (simp add: re_search_price_rx split: list.splits)
    then have "\<not> list_ex price_char (get_text price_text_tag)"
      by (simp add: list_ex_iff)
    with None pf show ?thesis by simp
  next
    case (Some m)
    obtain run g where m: "m = (run, g)" by (cases m)
    from re_search_price_rx_SomeD[of "get_text price_text_tag" run g] Some m
    have run: "run \<noteq> []" "list_all price_char run" "set run \<subseteq> set (get_text price_text_tag)"
      by blast+
    from run(1,2) have "list_ex price_char run" by (rule list_all_ex)
    with run(3) have ex: "list_ex price_char (get_text price_text_tag)"
      by (auto simp: list_ex_iff)
    have "\<not> list_ex is_digit (remove_commas run)"
      using nd run(3) remove_commas_subset[of run] by (auto simp: list_ex_iff)
    then have "py_float (remove_commas run) = Inl ValueError" by (rule py_float_no_digit)
    with Some m pf ex show ?thesis by simp
  qed
qed

text \<open>
  The amended property at the price texts \<open>Contact seller\<close> and
  \<open>Currently unavailable.\<close>
\<close>

theorem price_text_without_digit_witness:
  "parse_product_price None (price_page ''Contact seller'')
     = ([(WARNING, ''Product price not found for None'')], Inr None)
   \<and> parse_product_price None (price_page ''Currently unavailable.'')
     = ([(ERROR, ''Failed to convert price to float for None'')], Inr None)"
proof -
  have a: "find_name_id ''div'' ''corePrice_feature_div'' (price_page ''Contact seller'')
     = Some (Tag ''div'' (Some ''corePrice_feature_div'') [] None
               [Tag ''span'' None [''a-offscreen''] None [NavigableString ''Contact seller'']])
   \<and> find_name_class ''span'' ''a-offscreen''
       (Tag ''div'' (Some ''corePrice_feature_div'') [] None
               [Tag ''span'' None [''a-offscreen''] None [NavigableString ''Contact seller'']])
     = Some (Tag ''span'' None [''a-offscreen''] None [NavigableString ''Contact seller''])
   \<and> \<not> list_ex is_digit
         (get_text (Tag ''span'' None [''a-offscreen''] None [NavigableString ''Contact seller'']))"
    by (simp add: doc_defs find_defs text_defs is_digit_def digit_value_def)
  have b: "find_name_id ''div'' ''corePrice_feature_div'' (price_page ''Currently unavailable.'')
     = Some (Tag ''div'' (Some ''corePrice_feature_div'') [] None
               [Tag ''span'' None [''a-offscreen''] None
                  [NavigableString ''Currently unavailable.'']])
   \<and> find_name_class ''span'' ''a-offscreen''
       (Tag ''div'' (Some ''corePrice_feature_div'') [] None
               [Tag ''span'' None [''a-offscreen''] None
                  [NavigableString ''Currently unavailable.'']])
     = Some (Tag ''span'' None [''a-offscreen''] None [NavigableString ''Currently unavailable.''])
   \<and> \<not> list_ex is_digit
         (get_text (Tag ''span'' None [''a-offscreen''] None
                      [NavigableString ''Currently unavailable.'']))"
    by (simp add: doc_defs find_defs text_defs is_digit_def digit_value_def)
  note ta = price_text_without_digit[where upn=None, THEN mp, OF a]
  note tb = price_text_without_digit[where upn=None, THEN mp, OF b]
  from ta tb show ?thesis
    by (simp add: text_defs price_char_def is_digit_def digit_value_def)
qed

end
